theory Spec2Isabelle
  imports Complex_Main
begin

section \<open>The Python runtime as the notebook uses it\<close>

text \<open>
  The only code of the repository that computes anything is the data cell of the demo
  notebook: \<^verbatim>\<open>generate_customer_data\<close>, \<^verbatim>\<open>generate_sales_data\<close> and the
  \<^verbatim>\<open>withColumn\<close> step that adds \<^verbatim>\<open>total_amount\<close>. They call Python's
  \<^verbatim>\<open>random\<close> and \<^verbatim>\<open>datetime\<close> modules and format integers with f-strings.
  The cell runs after the configuration cell, whose
  \<^verbatim>\<open>from pyspark.sql.functions import *\<close> binds \<^verbatim>\<open>col\<close>, \<^verbatim>\<open>sum\<close> and
  \<^verbatim>\<open>round\<close> in the notebook's globals; the data cell imports only
  \<^verbatim>\<open>datetime\<close>, \<^verbatim>\<open>timedelta\<close> and \<^verbatim>\<open>random\<close>, so the three names keep
  that meaning in it. This section models those library calls; every exception one of
  them can raise is a value of \<open>error\<close>.
\<close>

datatype error = ValueError | IndexError | OverflowError | TypeError

subsection \<open>Integer formatting\<close>

definition digit_char :: "nat \<Rightarrow> char" where
  "digit_char d = char_of (48 + d)"

fun decimal :: "nat \<Rightarrow> string" where
  "decimal n = (if n < 10 then [digit_char n] else decimal (n div 10) @ [digit_char (n mod 10)])"

declare decimal.simps [simp del]

text \<open>\<^verbatim>\<open>f'{i}'\<close> for an integer: the decimal digits, with a minus sign when negative.\<close>

definition str_int :: "int \<Rightarrow> string" where
  "str_int i = (if i < 0 then CHR ''-'' # decimal (nat (- i)) else decimal (nat i))"

definition zfill :: "nat \<Rightarrow> string \<Rightarrow> string" where
  "zfill w s = replicate (w - length s) CHR ''0'' @ s"

text \<open>
  \<^verbatim>\<open>f'{i:0wd}'\<close>: the zeros go between the sign and the digits, up to a total width of
  \<open>w\<close>; a number with more digits is printed in full.
\<close>

definition format_0d :: "nat \<Rightarrow> int \<Rightarrow> string" where
  "format_0d w i =
     (if i < 0 then CHR ''-'' # zfill (w - 1) (decimal (nat (- i)))
      else zfill w (decimal (nat i)))"

subsection \<open>Dates\<close>

text \<open>
  A \<^verbatim>\<open>datetime\<close> at midnight is its proleptic Gregorian ordinal (day 1 is 0001-01-01),
  which is what the library's own addition works on. The constructor checks its
  arguments; an addition that leaves the years 1 to 9999 raises OverflowError.
\<close>

datatype datetime = Datetime (toordinal: int)

definition is_leap :: "int \<Rightarrow> bool" where
  "is_leap y = (y mod 4 = 0 \<and> (y mod 100 \<noteq> 0 \<or> y mod 400 = 0))"

definition days_before_year :: "int \<Rightarrow> int" where
  "days_before_year y = (y - 1) * 365 + (y - 1) div 4 - (y - 1) div 100 + (y - 1) div 400"

definition days_in_month :: "int \<Rightarrow> int \<Rightarrow> int" where
  "days_in_month y m =
     (if m = 2 \<and> is_leap y then 29
      else [31, 28, 31, 30, 31, 30, 31, 31, 30, 31, 30, 31] ! nat (m - 1))"

definition days_before_month :: "int \<Rightarrow> int \<Rightarrow> int" where
  "days_before_month y m =
     [0, 31, 59, 90, 120, 151, 181, 212, 243, 273, 304, 334] ! nat (m - 1)
       + (if 2 < m \<and> is_leap y then 1 else 0)"

definition max_ordinal :: int where
  "max_ordinal = 3652059"

definition datetime_ymd :: "int \<Rightarrow> int \<Rightarrow> int \<Rightarrow> error + datetime" where
  "datetime_ymd y m d =
     (if \<not> (1 \<le> y \<and> y \<le> 9999) then Inl ValueError
      else if \<not> (1 \<le> m \<and> m \<le> 12) then Inl ValueError
      else if \<not> (1 \<le> d \<and> d \<le> days_in_month y m) then Inl ValueError
      else Inr (Datetime (days_before_year y + days_before_month y m + d)))"

datatype timedelta = Timedelta (days: int)

definition timedelta_days :: "int \<Rightarrow> error + timedelta" where
  "timedelta_days n = (if \<bar>n\<bar> > 999999999 then Inl OverflowError else Inr (Timedelta n))"

definition datetime_add :: "datetime \<Rightarrow> timedelta \<Rightarrow> error + datetime" where
  "datetime_add t delta =
     (let o' = toordinal t + days delta
      in if 1 \<le> o' \<and> o' \<le> max_ordinal then Inr (Datetime o') else Inl OverflowError)"

subsection \<open>Floats\<close>

text \<open>
  A Python float or Spark double is the real number it denotes. A float operation
  computes the exact result and rounds it to a double. How doubles round is a parameter
  \<open>rnd\<close> of the model, passed to every function that computes with floats, so that
  no result depends on a particular rounding. A literal such as \<^verbatim>\<open>0.3\<close> is the
  double nearest to it, and an integer operand is converted to a double first.
\<close>

type_synonym rounding = "real \<Rightarrow> real"

definition float_literal :: "rounding \<Rightarrow> real \<Rightarrow> real" where
  "float_literal rnd x = rnd x"

definition float_of_int :: "rounding \<Rightarrow> int \<Rightarrow> real" where
  "float_of_int rnd k = rnd (of_int k)"

definition float_add :: "rounding \<Rightarrow> real \<Rightarrow> real \<Rightarrow> real" where
  "float_add rnd a b = rnd (a + b)"

definition float_sub :: "rounding \<Rightarrow> real \<Rightarrow> real \<Rightarrow> real" where
  "float_sub rnd a b = rnd (a - b)"

definition float_mul :: "rounding \<Rightarrow> real \<Rightarrow> real \<Rightarrow> real" where
  "float_mul rnd a b = rnd (a * b)"

subsection \<open>The random module\<close>

text \<open>
  The module-level generator of \<^verbatim>\<open>random\<close> is hidden mutable state that every call
  advances. It is modelled as the infinite tape of the raw outcomes still to come, one
  natural number per library call, passed explicitly: a call reads entry 0 and returns
  the tape without it. The notebook never seeds the generator, so the tape is arbitrary.
  \<^verbatim>\<open>randint(a, b)\<close> is \<^verbatim>\<open>a + randbelow(b - a + 1)\<close> and raises ValueError on an
  empty range; \<^verbatim>\<open>choice(seq)\<close> is \<^verbatim>\<open>seq[randbelow(len(seq))]\<close> and raises
  IndexError on an empty sequence; \<^verbatim>\<open>uniform(a, b)\<close> is
  \<^verbatim>\<open>a + (b - a) * random()\<close> in float arithmetic, where \<^verbatim>\<open>random()\<close> (here \<open>random_unit\<close>) is
  \<open>k / 2 ^ 53\<close> for some \<open>k < 2 ^ 53\<close>.
\<close>

type_synonym rng = "nat \<Rightarrow> nat"

type_synonym 'a rand = "rng \<Rightarrow> error + ('a \<times> rng)"

definition shift :: "nat \<Rightarrow> rng \<Rightarrow> rng" where
  "shift k g = (\<lambda>n. g (n + k))"

definition next_draw :: "rng \<Rightarrow> nat \<times> rng" where
  "next_draw g = (g 0, shift 1 g)"

definition randbelow :: "nat \<Rightarrow> rng \<Rightarrow> nat \<times> rng" where
  "randbelow n g = (case next_draw g of (d, g') \<Rightarrow> (d mod n, g'))"

definition randint :: "int \<Rightarrow> int \<Rightarrow> int rand" where
  "randint a b g =
     (if b < a then Inl ValueError
      else case randbelow (nat (b - a + 1)) g of (k, g') \<Rightarrow> Inr (a + int k, g'))"

definition choice :: "'a list \<Rightarrow> 'a rand" where
  "choice xs g =
     (if xs = [] then Inl IndexError
      else case randbelow (length xs) g of (k, g') \<Rightarrow> Inr (xs ! k, g'))"

definition random_unit :: "real rand" where
  "random_unit g = (case randbelow (2 ^ 53) g of (k, g') \<Rightarrow> Inr (real k / 2 ^ 53, g'))"

definition uniform :: "rounding \<Rightarrow> real \<Rightarrow> real \<Rightarrow> real rand" where
  "uniform rnd a b g =
     (case random_unit g of Inl e \<Rightarrow> Inl e
      | Inr (u, g') \<Rightarrow> Inr (float_add rnd a (float_mul rnd (float_sub rnd b a) u), g'))"

subsection \<open>Sequencing calls that draw and may raise\<close>

definition return_r :: "'a \<Rightarrow> 'a rand" where
  "return_r x g = Inr (x, g)"

definition bind_r :: "'a rand \<Rightarrow> ('a \<Rightarrow> 'b rand) \<Rightarrow> 'b rand" where
  "bind_r m f g = (case m g of Inl e \<Rightarrow> Inl e | Inr (x, g') \<Rightarrow> f x g')"

definition lift_r :: "error + 'a \<Rightarrow> 'a rand" where
  "lift_r v g = (case v of Inl e \<Rightarrow> Inl e | Inr x \<Rightarrow> Inr (x, g))"

text \<open>
  \<^verbatim>\<open>for i in range(n): out.append(body(i))\<close>: the indices are taken in order, each
  body draws from the tape the previous one left, and an exception ends the loop.
\<close>

definition range_py :: "int \<Rightarrow> int list" where
  "range_py n = [0..n - 1]"

fun for_append :: "(int \<Rightarrow> 'a rand) \<Rightarrow> int list \<Rightarrow> 'a list \<Rightarrow> ('a list) rand" where
  "for_append body [] out g = Inr (out, g)"
| "for_append body (i # is) out g =
     (case body i g of Inl e \<Rightarrow> Inl e | Inr (x, g') \<Rightarrow> for_append body is (out @ [x]) g')"

section \<open>The notebook's data cell\<close>

text \<open>
  A record is a Python dict from field names to values of several types. A Spark column
  expression is a value too: \<^verbatim>\<open>col(name)\<close>, an integer literal, a product, a
  difference, or a rounding to a number of decimal places.
\<close>

datatype column =
  Col string | LitInt int | Mul column column | Sub column column | Round column int

datatype val =
  StrV string | IntV int | FloatV real | BoolV bool | DatetimeV datetime | ColumnV column

text \<open>
  \<^verbatim>\<open>round\<close> in the data cell is \<^verbatim>\<open>pyspark.sql.functions.round(col, scale)\<close>, not
  the builtin: it builds a column expression from a column or from the name of one, and
  raises TypeError on any other argument, a Python float included.
\<close>

definition round_pyspark :: "val \<Rightarrow> int \<Rightarrow> error + val" where
  "round_pyspark c scale =
     (case c of
        ColumnV e \<Rightarrow> Inr (ColumnV (Round e scale))
      | StrV name \<Rightarrow> Inr (ColumnV (Round (Col name) scale))
      | _ \<Rightarrow> Inl TypeError)"

type_synonym row = "string \<rightharpoonup> val"

definition customer_record :: "int \<Rightarrow> row rand" where
  "customer_record i =
     bind_r (lift_r (datetime_ymd 2020 1 1)) (\<lambda>start.
     bind_r (randint 0 1400) (\<lambda>n.
     bind_r (lift_r (timedelta_days n)) (\<lambda>delta.
     bind_r (lift_r (datetime_add start delta)) (\<lambda>registration_date.
     bind_r (choice [''Premium'', ''Standard'', ''Basic'']) (\<lambda>customer_segment.
     bind_r (randint 1000 50000) (\<lambda>credit_limit.
     bind_r (choice [''USA'', ''Canada'', ''UK'', ''Germany'', ''France'']) (\<lambda>country.
     bind_r (choice [True, False]) (\<lambda>is_active.
     return_r (Map.empty(
       ''customer_id'' \<mapsto> StrV (''CUST_'' @ format_0d 6 i),
       ''first_name'' \<mapsto> StrV (''FirstName'' @ str_int i),
       ''last_name'' \<mapsto> StrV (''LastName'' @ str_int i),
       ''email'' \<mapsto> StrV (''customer'' @ str_int i @ ''@enterprise.com''),
       ''registration_date'' \<mapsto> DatetimeV registration_date,
       ''customer_segment'' \<mapsto> StrV customer_segment,
       ''credit_limit'' \<mapsto> IntV credit_limit,
       ''country'' \<mapsto> StrV country,
       ''is_active'' \<mapsto> BoolV is_active))))))))))"

definition generate_customer_data :: "int \<Rightarrow> (row list) rand" where
  "generate_customer_data num_customers =
     for_append customer_record (range_py num_customers) []"

definition sales_record :: "rounding \<Rightarrow> int \<Rightarrow> row rand" where
  "sales_record rnd i =
     bind_r (randint 0 999) (\<lambda>c.
     bind_r (randint 1 100) (\<lambda>p.
     bind_r (lift_r (datetime_ymd 2023 1 1)) (\<lambda>start.
     bind_r (randint 0 365) (\<lambda>n.
     bind_r (lift_r (timedelta_days n)) (\<lambda>delta.
     bind_r (lift_r (datetime_add start delta)) (\<lambda>transaction_date.
     bind_r (randint 1 10) (\<lambda>quantity.
     bind_r (uniform rnd (float_literal rnd 10) (float_literal rnd 500)) (\<lambda>u.
     bind_r (lift_r (round_pyspark (FloatV u) 2)) (\<lambda>unit_price.
     bind_r (uniform rnd (float_of_int rnd 0) (float_literal rnd (3 / 10))) (\<lambda>discount_percentage.
     bind_r (choice [''Credit Card'', ''Debit Card'', ''Cash'', ''Bank Transfer'']) (\<lambda>payment_method.
     bind_r (randint 1 50) (\<lambda>s.
     return_r (Map.empty(
       ''transaction_id'' \<mapsto> StrV (''TXN_'' @ format_0d 8 i),
       ''customer_id'' \<mapsto> StrV (''CUST_'' @ format_0d 6 c),
       ''product_id'' \<mapsto> StrV (''PROD_'' @ format_0d 3 p),
       ''transaction_date'' \<mapsto> DatetimeV transaction_date,
       ''quantity'' \<mapsto> IntV quantity,
       ''unit_price'' \<mapsto> unit_price,
       ''discount_percentage'' \<mapsto> FloatV discount_percentage,
       ''payment_method'' \<mapsto> StrV payment_method,
       ''sales_rep'' \<mapsto> StrV (''REP_'' @ format_0d 3 s)))))))))))))))"

definition generate_sales_data :: "rounding \<Rightarrow> int \<Rightarrow> (row list) rand" where
  "generate_sales_data rnd num_transactions =
     for_append (sales_record rnd) (range_py num_transactions) []"

subsection \<open>The derived column\<close>



section \<open>Auxiliary notions for the proofs\<close>

text \<open>The number a string of decimal digits denotes, leading zeros allowed.\<close>

definition decimal_value :: "string \<Rightarrow> nat" where
  "decimal_value s = foldl (\<lambda>acc c. 10 * acc + (of_char c - 48)) 0 s"

text \<open>The arithmetic that never rounds, for the worked examples.\<close>

definition exact :: rounding where
  "exact = (\<lambda>x. x)"



text \<open>A concrete tape on which the generators are run in the worked examples.\<close>

definition tape0 :: rng where
  "tape0 = (\<lambda>n. 7 * n + 3)"


text \<open>The tape that yields \<open>k\<close> zeros and then continues as \<open>g\<close>.\<close>

definition prepend_zeros :: "nat \<Rightarrow> rng \<Rightarrow> rng" where
  "prepend_zeros k g = (\<lambda>n. if n < k then 0 else g (n - k))"

section \<open>What the library calls of the data cell return\<close>

lemma datetime_2020: "datetime_ymd 2020 1 1 = Inr (Datetime 737425)"
  by (simp add: datetime_ymd_def days_in_month_def days_before_year_def days_before_month_def is_leap_def)

lemma datetime_2023: "datetime_ymd 2023 1 1 = Inr (Datetime 738521)"
  by (simp add: datetime_ymd_def days_in_month_def days_before_year_def days_before_month_def is_leap_def)

lemma randint_eq: "a \<le> b \<Longrightarrow> randint a b g = Inr (a + int (g 0 mod nat (b - a + 1)), shift 1 g)"
  by (simp add: randint_def randbelow_def next_draw_def)

lemma choice_eq: "xs \<noteq> [] \<Longrightarrow> choice xs g = Inr (xs ! (g 0 mod length xs), shift 1 g)"
  by (simp add: choice_def randbelow_def next_draw_def)

lemma uniform_eq:
  "uniform rnd a b g =
     Inr (float_add rnd a (float_mul rnd (float_sub rnd b a) (real (g 0 mod 2 ^ 53) / 2 ^ 53)),
          shift 1 g)"
  by (simp add: uniform_def random_unit_def randbelow_def next_draw_def)

lemma shift_shift: "shift a (shift b g) = shift (a + b) g"
  by (simp add: shift_def add.assoc)

lemma shift_apply: "shift k g n = g (n + k)"
  by (simp add: shift_def)

lemma shift_0: "shift 0 g = g"
  by (simp add: shift_def)

lemma mod_le_pred: "0 < n \<Longrightarrow> (d::nat) mod n \<le> n - 1"
  using mod_less_divisor [of n d] by linarith

lemma datetime_add_ok:
  "0 \<le> n \<Longrightarrow> toordinal t + n \<le> max_ordinal \<Longrightarrow> 1 \<le> toordinal t \<Longrightarrow>
   datetime_add t (Timedelta n) = Inr (Datetime (toordinal t + n))"
  by (simp add: datetime_add_def)

lemma small_numerals: "Suc (Suc 0) = 2" "Suc 2 = 3" "Suc 3 = 4" "Suc 4 = 5" "Suc 5 = 6" "Suc 6 = 7" "Suc 7 = 8"
  by simp_all

lemma customer_record_eq:
  "customer_record i g = Inr (Map.empty(
       ''customer_id'' \<mapsto> StrV (''CUST_'' @ format_0d 6 i),
       ''first_name'' \<mapsto> StrV (''FirstName'' @ str_int i),
       ''last_name'' \<mapsto> StrV (''LastName'' @ str_int i),
       ''email'' \<mapsto> StrV (''customer'' @ str_int i @ ''@enterprise.com''),
       ''registration_date'' \<mapsto> DatetimeV (Datetime (737425 + int (g 0 mod 1401))),
       ''customer_segment'' \<mapsto> StrV ([''Premium'', ''Standard'', ''Basic''] ! (g 1 mod 3)),
       ''credit_limit'' \<mapsto> IntV (1000 + int (g 2 mod 49001)),
       ''country'' \<mapsto> StrV ([''USA'', ''Canada'', ''UK'', ''Germany'', ''France''] ! (g 3 mod 5)),
       ''is_active'' \<mapsto> BoolV ([True, False] ! (g 4 mod 2))), shift 5 g)"
proof -
  have d: "g 0 mod 1401 \<le> 1400"
    using mod_le_pred [of 1401 "g 0"] by simp
  show ?thesis
    unfolding customer_record_def bind_r_def lift_r_def return_r_def
    using d
    by (simp add: datetime_2020 randint_eq choice_eq timedelta_days_def datetime_add_ok
        max_ordinal_def shift_shift shift_apply small_numerals)
qed

lemma round_pyspark_float: "round_pyspark (FloatV u) scale = Inl TypeError"
  by (simp add: round_pyspark_def)

lemma sales_record_raises: "sales_record rnd i g = Inl TypeError"
proof -
  have d: "g 2 mod 366 \<le> 365"
    using mod_le_pred [of 366 "g 2"] by simp
  show ?thesis
    unfolding sales_record_def bind_r_def lift_r_def return_r_def
    using d
    by (simp add: datetime_2023 randint_eq uniform_eq timedelta_days_def datetime_add_ok
        max_ordinal_def shift_shift shift_apply small_numerals round_pyspark_float)
qed

section \<open>The loops\<close>

lemma for_append_run:
  assumes body: "\<And>i g. \<exists>x. body i g = Inr (x, shift k g)"
  shows "\<exists>xs. for_append body is out g = Inr (out @ xs, shift (k * length is) g)
           \<and> length xs = length is
           \<and> (\<forall>j<length is. body (is ! j) (shift (k * j) g) = Inr (xs ! j, shift (k * Suc j) g))"
proof (induction "is" arbitrary: out g)
  case Nil
  show ?case by (simp add: shift_0)
next
  case (Cons i "is")
  obtain x where x: "body i g = Inr (x, shift k g)"
    using body by blast
  obtain ys where run: "for_append body is (out @ [x]) (shift k g)
        = Inr ((out @ [x]) @ ys, shift (k * length is) (shift k g))"
      and len: "length ys = length is"
      and nth: "\<forall>j<length is. body (is ! j) (shift (k * j) (shift k g))
                  = Inr (ys ! j, shift (k * Suc j) (shift k g))"
    using Cons.IH by blast
  have "for_append body (i # is) out g = Inr (out @ (x # ys), shift (k * length (i # is)) g)"
    using x run by (simp add: shift_shift add.commute)
  moreover have "length (x # ys) = length (i # is)"
    using len by simp
  moreover have "\<forall>j<length (i # is).
      body ((i # is) ! j) (shift (k * j) g) = Inr ((x # ys) ! j, shift (k * Suc j) g)"
  proof (intro allI impI)
    fix j assume j: "j < length (i # is)"
    show "body ((i # is) ! j) (shift (k * j) g) = Inr ((x # ys) ! j, shift (k * Suc j) g)"
    proof (cases j)
      case 0
      then show ?thesis using x by (simp add: shift_0)
    next
      case (Suc m)
      then have "m < length is" using j by simp
      then show ?thesis using nth Suc by (simp add: shift_shift add.commute)
    qed
  qed
  ultimately show ?case by blast
qed

lemma length_range_py: "length (range_py n) = nat n"
  by (simp add: range_py_def)

lemma nth_range_py: "j < nat n \<Longrightarrow> range_py n ! j = int j"
  by (simp add: range_py_def nth_upto)

lemma range_py_nonpos: "n \<le> 0 \<Longrightarrow> range_py n = []"
  by (simp add: range_py_def)

lemma generate_customer_data_run:
  "\<exists>cs. generate_customer_data n g = Inr (cs, shift (5 * nat n) g)
        \<and> length cs = nat n
        \<and> (\<forall>j<nat n. customer_record (int j) (shift (5 * j) g) = Inr (cs ! j, shift (5 * Suc j) g))"
proof -
  have body: "\<And>i g. \<exists>x. customer_record i g = Inr (x, shift 5 g)"
    by (simp add: customer_record_eq)
  show ?thesis
    using for_append_run [of customer_record 5 "range_py n" "[]" g, OF body]
    by (auto simp: generate_customer_data_def length_range_py nth_range_py)
qed

lemma range_py_pos: "0 < n \<Longrightarrow> range_py n = 0 # [1..n - 1]"
  by (simp add: range_py_def upto_rec1)

lemma generate_sales_data_nonpos: "N \<le> 0 \<Longrightarrow> generate_sales_data rnd N g = Inr ([], g)"
  by (simp add: generate_sales_data_def range_py_nonpos)

lemma generate_sales_data_pos: "0 < N \<Longrightarrow> generate_sales_data rnd N g = Inl TypeError"
  by (simp add: generate_sales_data_def range_py_pos sales_record_raises)


lemma customer_row_fields:
  assumes "customer_record i g = Inr (r, g')"
  shows "r ''customer_id'' = Some (StrV (''CUST_'' @ format_0d 6 i))"
    and "r ''first_name'' = Some (StrV (''FirstName'' @ str_int i))"
    and "r ''last_name'' = Some (StrV (''LastName'' @ str_int i))"
    and "r ''email'' = Some (StrV (''customer'' @ str_int i @ ''@enterprise.com''))"
    and "r ''registration_date'' = Some (DatetimeV (Datetime (737425 + int (g 0 mod 1401))))"
    and "r ''customer_segment'' = Some (StrV ([''Premium'', ''Standard'', ''Basic''] ! (g 1 mod 3)))"
    and "r ''credit_limit'' = Some (IntV (1000 + int (g 2 mod 49001)))"
    and "r ''country'' = Some (StrV ([''USA'', ''Canada'', ''UK'', ''Germany'', ''France''] ! (g 3 mod 5)))"
    and "r ''is_active'' = Some (BoolV ([True, False] ! (g 4 mod 2)))"
  using assms unfolding customer_record_eq by auto

lemma generate_customer_data_nth:
  assumes "generate_customer_data n g = Inr (cs, g')"
  shows "length cs = nat n" and "g' = shift (5 * nat n) g"
    and "j < nat n \<Longrightarrow> customer_record (int j) (shift (5 * j) g) = Inr (cs ! j, shift (5 * Suc j) g)"
  using assms generate_customer_data_run [of n g] by auto


section \<open>Counts and exceptions\<close>

text \<open>
  C1. For every requested count N >= 0, generate_customer_data(N) and
  generate_sales_data(N) each return a sequence of exactly N records. The customer
  generator does. The sales generator returns the empty list for N = 0 and raises
  TypeError for every N >= 1: its first record calls the \<^verbatim>\<open>round\<close> of
  \<^verbatim>\<open>pyspark.sql.functions\<close> on a float.
\<close>

theorem customer_count_exact_sales_count_raises:
  assumes "0 \<le> N"
  shows "(\<exists>cs g'. generate_customer_data N g = Inr (cs, g') \<and> int (length cs) = N)
       \<and> generate_sales_data rnd N g = (if N = 0 then Inr ([], g) else Inl TypeError)"
proof
  show "\<exists>cs g'. generate_customer_data N g = Inr (cs, g') \<and> int (length cs) = N"
    using assms generate_customer_data_run [of N g] by auto
  show "generate_sales_data rnd N g = (if N = 0 then Inr ([], g) else Inl TypeError)"
    using assms generate_sales_data_nonpos [of N rnd g] generate_sales_data_pos [of N rnd g]
    by (cases "N = 0") simp_all
qed

theorem customer_count_exact_sales_count_raises_witness:
  "(0::int) \<le> 1
   \<and> (\<exists>cs g'. generate_customer_data 1 tape0 = Inr (cs, g') \<and> int (length cs) = 1)
   \<and> generate_sales_data exact 1 tape0 = Inl TypeError"
  using customer_count_exact_sales_count_raises [of 1 tape0 exact] by simp

text \<open>
  C8. For every non-positive count N <= 0, generate_customer_data(N) and
  generate_sales_data(N) return an empty sequence; they never raise an error for any
  integer count input. Both return the empty list for N <= 0 and the customer generator
  never raises; the sales generator raises TypeError for every N >= 1.
\<close>

theorem nonpositive_counts_empty_positive_sales_raise:
  "(\<exists>cs g'. generate_customer_data N g = Inr (cs, g'))
   \<and> (N \<le> 0 \<longrightarrow> generate_customer_data N g = Inr ([], g)
                \<and> generate_sales_data rnd N g = Inr ([], g))
   \<and> (0 < N \<longrightarrow> generate_sales_data rnd N g = Inl TypeError)"
proof (intro conjI impI)
  show "\<exists>cs g'. generate_customer_data N g = Inr (cs, g')"
    using generate_customer_data_run [of N g] by blast
next
  assume "N \<le> 0"
  then show "generate_customer_data N g = Inr ([], g)"
    by (simp add: generate_customer_data_def range_py_nonpos)
next
  assume "N \<le> 0"
  then show "generate_sales_data rnd N g = Inr ([], g)"
    by (rule generate_sales_data_nonpos)
next
  assume "0 < N"
  then show "generate_sales_data rnd N g = Inl TypeError"
    by (rule generate_sales_data_pos)
qed

theorem nonpositive_counts_empty_positive_sales_raise_witness:
  "(- 2 :: int) \<le> 0
   \<and> generate_customer_data (- 2) tape0 = Inr ([], tape0)
   \<and> generate_sales_data exact (- 2) tape0 = Inr ([], tape0)
   \<and> (0::int) < 5000
   \<and> (\<exists>cs g'. generate_customer_data 5000 tape0 = Inr (cs, g'))
   \<and> generate_sales_data exact 5000 tape0 = Inl TypeError"
  using nonpositive_counts_empty_positive_sales_raise [of "- 2" tape0 exact]
    nonpositive_counts_empty_positive_sales_raise [of 5000 tape0 exact]
  by simp

section \<open>Ranges of the drawn fields\<close>

lemma randint_bounds: "0 < n \<Longrightarrow> a \<le> a + int (d mod n)" "0 < n \<Longrightarrow> a + int (d mod n) \<le> a + int n - 1"
  using mod_le_pred [of n d] by simp_all

lemma nth_mod_mem: "xs \<noteq> [] \<Longrightarrow> xs ! (d mod length xs) \<in> set xs"
  by simp





section \<open>The derived total\<close>



section \<open>Identifiers\<close>

lemma char_of_digits:
  "char_of (48::nat) = CHR ''0''" "char_of (49::nat) = CHR ''1''" "char_of (50::nat) = CHR ''2''"
  "char_of (51::nat) = CHR ''3''" "char_of (52::nat) = CHR ''4''" "char_of (53::nat) = CHR ''5''"
  "char_of (54::nat) = CHR ''6''" "char_of (55::nat) = CHR ''7''" "char_of (56::nat) = CHR ''8''"
  "char_of (57::nat) = CHR ''9''"
  using char_of_char [of "CHR ''0''", where ?'a = nat] char_of_char [of "CHR ''1''", where ?'a = nat]
    char_of_char [of "CHR ''2''", where ?'a = nat] char_of_char [of "CHR ''3''", where ?'a = nat]
    char_of_char [of "CHR ''4''", where ?'a = nat] char_of_char [of "CHR ''5''", where ?'a = nat]
    char_of_char [of "CHR ''6''", where ?'a = nat] char_of_char [of "CHR ''7''", where ?'a = nat]
    char_of_char [of "CHR ''8''", where ?'a = nat] char_of_char [of "CHR ''9''", where ?'a = nat]
  by simp_all

lemma of_char_digit_char: "d < 10 \<Longrightarrow> of_char (digit_char d) = 48 + d"
  by (simp add: digit_char_def)

lemma decimal_value_snoc:
  "decimal_value (s @ [c]) = 10 * decimal_value s + (of_char c - 48)"
  by (simp add: decimal_value_def)

lemma decimal_value_decimal: "decimal_value (decimal n) = n"
proof (induction n rule: decimal.induct)
  case (1 n)
  show ?case
  proof (cases "n < 10")
    case True
    then show ?thesis
      by (subst decimal.simps) (simp add: decimal_value_def of_char_digit_char)
  next
    case False
    have "decimal_value (decimal n) = 10 * decimal_value (decimal (n div 10)) + (of_char (digit_char (n mod 10)) - 48)"
      using False by (subst decimal.simps) (simp add: decimal_value_snoc)
    also have "\<dots> = 10 * (n div 10) + n mod 10"
      using "1.IH" [OF False] by (simp add: of_char_digit_char)
    finally show ?thesis by simp
  qed
qed

lemma decimal_value_zero_Cons: "decimal_value (CHR ''0'' # s) = decimal_value s"
  by (simp add: decimal_value_def)

lemma decimal_value_zeros: "decimal_value (replicate k CHR ''0'' @ s) = decimal_value s"
  by (induction k) (simp_all add: decimal_value_zero_Cons)

lemma decimal_value_zfill: "decimal_value (zfill w s) = decimal_value s"
  by (simp add: zfill_def decimal_value_zeros)

lemma decimal_value_format_0d: "0 \<le> i \<Longrightarrow> decimal_value (format_0d w i) = nat i"
  by (simp add: format_0d_def decimal_value_zfill decimal_value_decimal)

lemma format_0d_inj: "0 \<le> i \<Longrightarrow> 0 \<le> j \<Longrightarrow> format_0d w i = format_0d w j \<Longrightarrow> i = j"
  using decimal_value_format_0d [of i w] decimal_value_format_0d [of j w] by simp





lemma replicate_numeral: "replicate (numeral v) x = x # replicate (numeral v - 1) x"
  by (simp add: numeral_eq_Suc)

lemma format_0d_examples: "format_0d 6 3 = ''000003''" "format_0d 8 1 = ''00000001''" "format_0d 6 1234567 = ''1234567''"
  by (simp_all add: format_0d_def zfill_def decimal.simps digit_char_def char_of_digits replicate_numeral)





section \<open>Independence of records and of calls\<close>




lemma shift_prepend_zeros: "shift k (prepend_zeros k g) = g"
  by (simp add: shift_def prepend_zeros_def)

lemma second_customer_call_outputs:
  "{ys. \<exists>g xs g1 g2. generate_customer_data N g = Inr (xs, g1)
                     \<and> generate_customer_data N g1 = Inr (ys, g2)}
   = {ys. \<exists>g g2. generate_customer_data N g = Inr (ys, g2)}"
proof (intro equalityI subsetI)
  fix ys
  assume "ys \<in> {ys. \<exists>g xs g1 g2. generate_customer_data N g = Inr (xs, g1)
                     \<and> generate_customer_data N g1 = Inr (ys, g2)}"
  then show "ys \<in> {ys. \<exists>g g2. generate_customer_data N g = Inr (ys, g2)}"
    by blast
next
  fix ys
  assume "ys \<in> {ys. \<exists>g g2. generate_customer_data N g = Inr (ys, g2)}"
  then obtain g g2 where second: "generate_customer_data N g = Inr (ys, g2)"
    by blast
  define g0 where "g0 = prepend_zeros (5 * nat N) g"
  obtain xs where "generate_customer_data N g0 = Inr (xs, shift (5 * nat N) g0)"
    using generate_customer_data_run [of N g0] by blast
  then have first: "generate_customer_data N g0 = Inr (xs, g)"
    by (simp add: g0_def shift_prepend_zeros)
  show "ys \<in> {ys. \<exists>g xs g1 g2. generate_customer_data N g = Inr (xs, g1)
                     \<and> generate_customer_data N g1 = Inr (ys, g2)}"
    using first second by blast
qed

lemma two_customer_calls:
  "\<exists>xs ys g2. generate_customer_data N g = Inr (xs, shift (5 * nat N) g)
      \<and> generate_customer_data N (shift (5 * nat N) g) = Inr (ys, g2)
      \<and> length xs = nat N \<and> length ys = nat N
      \<and> (\<forall>i<nat N. (ys ! i) ''customer_id'' = Some (StrV (''CUST_'' @ format_0d 6 (int i))))"
proof -
  obtain xs where a: "generate_customer_data N g = Inr (xs, shift (5 * nat N) g)"
      "length xs = nat N"
    using generate_customer_data_run [of N g] by blast
  obtain ys g2 where b: "generate_customer_data N (shift (5 * nat N) g) = Inr (ys, g2)"
      "length ys = nat N"
    using generate_customer_data_run [of N "shift (5 * nat N) g"] by blast
  have ids: "\<forall>i<nat N. (ys ! i) ''customer_id'' = Some (StrV (''CUST_'' @ format_0d 6 (int i)))"
  proof (intro allI impI)
    fix i assume "i < nat N"
    then show "(ys ! i) ''customer_id'' = Some (StrV (''CUST_'' @ format_0d 6 (int i)))"
      using generate_customer_data_nth(3) [OF b(1)] customer_row_fields(1) by blast
  qed
  show ?thesis
    apply (rule exI [of _ xs], rule exI [of _ ys], rule exI [of _ g2])
    using a b ids by (intro conjI)
qed

lemma first_customer_call_leaves_rest_of_tape:
  assumes "\<forall>n. g' (n + 5 * nat N) = g (n + 5 * nat N)"
  shows "\<exists>xs'. generate_customer_data N g' = Inr (xs', shift (5 * nat N) g)"
proof -
  have "shift (5 * nat N) g' = shift (5 * nat N) g"
    using assms by (simp add: shift_def)
  then show ?thesis
    using generate_customer_data_run [of N g'] by auto
qed

text \<open>
  C7. For every count N, two successive calls of a generator with the same count N
  produce two sequences of the same length N, and no mutable state is shared between the
  calls: the result of the second call ranges over the same possible outputs whether or
  not the first call occurred. This holds of the customer generator. The only thing the
  first call hands on is the tape of Python's random generator, advanced by its 5N draws:
  the second call starts on the same tape whatever the first call drew and returned, it
  returns N records numbered from 0 again, and over all tapes it can return what a single
  call can. Two successive calls of the sales generator both raise TypeError for N >= 1.
\<close>

theorem successive_customer_calls_independent_sales_calls_raise:
  "(\<exists>xs ys g2. generate_customer_data N g = Inr (xs, shift (5 * nat N) g)
      \<and> generate_customer_data N (shift (5 * nat N) g) = Inr (ys, g2)
      \<and> length xs = nat N \<and> length ys = nat N
      \<and> (\<forall>i<nat N. (ys ! i) ''customer_id'' = Some (StrV (''CUST_'' @ format_0d 6 (int i)))))
   \<and> ((\<forall>n. g' (n + 5 * nat N) = g (n + 5 * nat N))
        \<longrightarrow> (\<exists>xs'. generate_customer_data N g' = Inr (xs', shift (5 * nat N) g)))
   \<and> {ys. \<exists>g xs g1 g2. generate_customer_data N g = Inr (xs, g1)
                     \<and> generate_customer_data N g1 = Inr (ys, g2)}
     = {ys. \<exists>g g2. generate_customer_data N g = Inr (ys, g2)}
   \<and> (0 < N \<longrightarrow> generate_sales_data rnd N g = Inl TypeError
                \<and> generate_sales_data rnd N g1 = Inl TypeError)"
proof (intro conjI impI)
  show "\<exists>xs ys g2. generate_customer_data N g = Inr (xs, shift (5 * nat N) g)
      \<and> generate_customer_data N (shift (5 * nat N) g) = Inr (ys, g2)
      \<and> length xs = nat N \<and> length ys = nat N
      \<and> (\<forall>i<nat N. (ys ! i) ''customer_id'' = Some (StrV (''CUST_'' @ format_0d 6 (int i))))"
    by (rule two_customer_calls)
next
  assume "\<forall>n. g' (n + 5 * nat N) = g (n + 5 * nat N)"
  then show "\<exists>xs'. generate_customer_data N g' = Inr (xs', shift (5 * nat N) g)"
    by (rule first_customer_call_leaves_rest_of_tape)
next
  show "{ys. \<exists>g xs g1 g2. generate_customer_data N g = Inr (xs, g1)
                     \<and> generate_customer_data N g1 = Inr (ys, g2)}
     = {ys. \<exists>g g2. generate_customer_data N g = Inr (ys, g2)}"
    by (rule second_customer_call_outputs)
next
  assume "0 < N"
  then show "generate_sales_data rnd N g = Inl TypeError"
    by (rule generate_sales_data_pos)
next
  assume "0 < N"
  then show "generate_sales_data rnd N g1 = Inl TypeError"
    by (rule generate_sales_data_pos)
qed

theorem successive_customer_calls_independent_sales_calls_raise_witness:
  "(0::int) < 2 \<and> (\<exists>xs ys g2 xs'.
      generate_customer_data 2 tape0 = Inr (xs, shift 10 tape0)
    \<and> generate_customer_data 2 (shift 10 tape0) = Inr (ys, g2)
    \<and> length xs = 2 \<and> length ys = 2
    \<and> generate_customer_data 2 (prepend_zeros 10 (shift 10 tape0)) = Inr (xs', shift 10 tape0)
    \<and> (xs ! 0) ''credit_limit'' = Some (IntV 1017)
    \<and> (xs' ! 0) ''credit_limit'' = Some (IntV 1000)
    \<and> generate_sales_data exact 2 tape0 = Inl TypeError
    \<and> generate_sales_data exact 2 (shift 10 tape0) = Inl TypeError)"
proof -
  define t where "t = prepend_zeros 10 (shift 10 tape0)"
  have agree: "\<forall>n. t (n + 5 * nat 2) = tape0 (n + 5 * nat 2)"
    by (simp add: t_def prepend_zeros_def shift_def)
  note calls = successive_customer_calls_independent_sales_calls_raise
    [of 2 tape0 t exact "shift 10 tape0"]
  obtain xs ys g2 where a: "generate_customer_data 2 tape0 = Inr (xs, shift 10 tape0)"
    and b: "generate_customer_data 2 (shift 10 tape0) = Inr (ys, g2)"
    and lx: "length xs = 2" and ly: "length ys = 2"
    using conjunct1 [OF calls] by auto
  obtain xs' where c: "generate_customer_data 2 t = Inr (xs', shift 10 tape0)"
    using conjunct1 [OF conjunct2 [OF calls]] agree by auto
  have two: "(0::int) < 2" by simp
  have s1: "generate_sales_data exact 2 tape0 = Inl TypeError"
    and s2: "generate_sales_data exact 2 (shift 10 tape0) = Inl TypeError"
    using conjunct2 [OF conjunct2 [OF conjunct2 [OF calls]]] by simp_all
  have r0: "customer_record 0 tape0 = Inr (xs ! 0, shift 5 tape0)"
    using generate_customer_data_nth(3) [OF a, of 0] by (simp add: shift_0)
  have v: "(xs ! 0) ''credit_limit'' = Some (IntV 1017)"
    using customer_row_fields(7) [OF r0] by (simp add: tape0_def)
  have r0': "customer_record 0 t = Inr (xs' ! 0, shift 5 t)"
    using generate_customer_data_nth(3) [OF c, of 0] by (simp add: shift_0)
  have v': "(xs' ! 0) ''credit_limit'' = Some (IntV 1000)"
    using customer_row_fields(7) [OF r0'] by (simp add: t_def prepend_zeros_def)
  show ?thesis
    apply (rule conjI [OF two])
    apply (rule exI [of _ xs], rule exI [of _ ys], rule exI [of _ g2], rule exI [of _ xs'])
    using a b lx ly c [unfolded t_def] v v' s1 s2 by (intro conjI)
qed

section \<open>Which fields are drawn\<close>

lemma customer_draws:
  assumes "generate_customer_data N g = Inr (cs, g')" and "i < nat N"
  shows "(cs ! i) ''registration_date'' = Some (DatetimeV (Datetime (737425 + int (g (5 * i) mod 1401))))"
    and "(cs ! i) ''customer_segment'' = Some (StrV ([''Premium'', ''Standard'', ''Basic''] ! (g (5 * i + 1) mod 3)))"
    and "(cs ! i) ''credit_limit'' = Some (IntV (1000 + int (g (5 * i + 2) mod 49001)))"
    and "(cs ! i) ''country'' = Some (StrV ([''USA'', ''Canada'', ''UK'', ''Germany'', ''France''] ! (g (5 * i + 3) mod 5)))"
    and "(cs ! i) ''is_active'' = Some (BoolV ([True, False] ! (g (5 * i + 4) mod 2)))"
    and "(cs ! i) ''customer_id'' = Some (StrV (''CUST_'' @ format_0d 6 (int i)))"
    and "(cs ! i) ''first_name'' = Some (StrV (''FirstName'' @ str_int (int i)))"
    and "(cs ! i) ''last_name'' = Some (StrV (''LastName'' @ str_int (int i)))"
    and "(cs ! i) ''email'' = Some (StrV (''customer'' @ str_int (int i) @ ''@enterprise.com''))"
  using customer_row_fields [OF generate_customer_data_nth(3) [OF assms]]
  by (simp_all add: shift_def add.commute)

lemma segment_choice: "[''Premium'', ''Standard'', ''Basic''] ! (d mod 3) \<in> {''Premium'', ''Standard'', ''Basic''}"
  using nth_mod_mem [of "[''Premium'', ''Standard'', ''Basic'']" d] by simp

lemma country_choice:
  "[''USA'', ''Canada'', ''UK'', ''Germany'', ''France''] ! (d mod 5)
     \<in> {''USA'', ''Canada'', ''UK'', ''Germany'', ''France''}"
  using nth_mod_mem [of "[''USA'', ''Canada'', ''UK'', ''Germany'', ''France'']" d] by simp

lemma active_choice: "[True, False] ! (d mod 2) \<in> {True, False}"
  by simp

lemma randint_mem: "0 < n \<Longrightarrow> a + int (d mod n) \<in> {a..a + int n - 1}"
  using randint_bounds [of n a d] by simp

text \<open>
  C3, amended. In every record of generate_customer_data, every field that is not derived
  from the record's index (registration_date, customer_segment, credit_limit, country,
  is_active) is computed from one random draw of its own, the fields of record i from
  the entries 5i to 5i + 4 of the tape, by a fixed function whose values lie in a fixed
  enumerated set or numeric range specific to the field. The remaining fields
  (customer_id, first_name, last_name, email) are functions of the record's index alone.
\<close>

theorem customer_drawn_fields_from_fixed_sets:
  "\<exists>reg seg lim cty act cid fnm lnm eml.
      (\<forall>d. reg d \<in> DatetimeV ` Datetime ` {737425..738825})
    \<and> (\<forall>d. seg d \<in> StrV ` {''Premium'', ''Standard'', ''Basic''})
    \<and> (\<forall>d. lim d \<in> IntV ` {1000..50000})
    \<and> (\<forall>d. cty d \<in> StrV ` {''USA'', ''Canada'', ''UK'', ''Germany'', ''France''})
    \<and> (\<forall>d. act d \<in> BoolV ` {True, False})
    \<and> (\<forall>N g cs g' i. generate_customer_data N g = Inr (cs, g') \<and> i < nat N \<longrightarrow>
          (cs ! i) ''registration_date'' = Some (reg (g (5 * i)))
        \<and> (cs ! i) ''customer_segment'' = Some (seg (g (5 * i + 1)))
        \<and> (cs ! i) ''credit_limit'' = Some (lim (g (5 * i + 2)))
        \<and> (cs ! i) ''country'' = Some (cty (g (5 * i + 3)))
        \<and> (cs ! i) ''is_active'' = Some (act (g (5 * i + 4)))
        \<and> (cs ! i) ''customer_id'' = Some (cid i)
        \<and> (cs ! i) ''first_name'' = Some (fnm i)
        \<and> (cs ! i) ''last_name'' = Some (lnm i)
        \<and> (cs ! i) ''email'' = Some (eml i))"
proof -
  define reg where "reg = (\<lambda>d::nat. DatetimeV (Datetime (737425 + int (d mod 1401))))"
  define seg where "seg = (\<lambda>d::nat. StrV ([''Premium'', ''Standard'', ''Basic''] ! (d mod 3)))"
  define lim where "lim = (\<lambda>d::nat. IntV (1000 + int (d mod 49001)))"
  define cty where "cty = (\<lambda>d::nat. StrV ([''USA'', ''Canada'', ''UK'', ''Germany'', ''France''] ! (d mod 5)))"
  define act where "act = (\<lambda>d::nat. BoolV ([True, False] ! (d mod 2)))"
  define cid where "cid = (\<lambda>i::nat. StrV (''CUST_'' @ format_0d 6 (int i)))"
  define fnm where "fnm = (\<lambda>i::nat. StrV (''FirstName'' @ str_int (int i)))"
  define lnm where "lnm = (\<lambda>i::nat. StrV (''LastName'' @ str_int (int i)))"
  define eml where "eml = (\<lambda>i::nat. StrV (''customer'' @ str_int (int i) @ ''@enterprise.com''))"
  have r1: "\<forall>d. reg d \<in> DatetimeV ` Datetime ` {737425..738825}"
    unfolding reg_def using randint_mem [of 1401 737425] by (intro allI imageI) simp
  have r2: "\<forall>d. seg d \<in> StrV ` {''Premium'', ''Standard'', ''Basic''}"
    unfolding seg_def by (intro allI imageI segment_choice)
  have r3: "\<forall>d. lim d \<in> IntV ` {1000..50000}"
    unfolding lim_def using randint_mem [of 49001 1000] by (intro allI imageI) simp
  have r4: "\<forall>d. cty d \<in> StrV ` {''USA'', ''Canada'', ''UK'', ''Germany'', ''France''}"
    unfolding cty_def by (intro allI imageI country_choice)
  have r5: "\<forall>d. act d \<in> BoolV ` {True, False}"
    unfolding act_def by (intro allI imageI active_choice)
  have run: "\<forall>N g cs g' i. generate_customer_data N g = Inr (cs, g') \<and> i < nat N \<longrightarrow>
          (cs ! i) ''registration_date'' = Some (reg (g (5 * i)))
        \<and> (cs ! i) ''customer_segment'' = Some (seg (g (5 * i + 1)))
        \<and> (cs ! i) ''credit_limit'' = Some (lim (g (5 * i + 2)))
        \<and> (cs ! i) ''country'' = Some (cty (g (5 * i + 3)))
        \<and> (cs ! i) ''is_active'' = Some (act (g (5 * i + 4)))
        \<and> (cs ! i) ''customer_id'' = Some (cid i)
        \<and> (cs ! i) ''first_name'' = Some (fnm i)
        \<and> (cs ! i) ''last_name'' = Some (lnm i)
        \<and> (cs ! i) ''email'' = Some (eml i)"
  proof (intro allI impI, elim conjE)
    fix N g cs g' i
    assume a: "generate_customer_data N g = Inr (cs, g')" and b: "i < nat N"
    show "(cs ! i) ''registration_date'' = Some (reg (g (5 * i)))
        \<and> (cs ! i) ''customer_segment'' = Some (seg (g (5 * i + 1)))
        \<and> (cs ! i) ''credit_limit'' = Some (lim (g (5 * i + 2)))
        \<and> (cs ! i) ''country'' = Some (cty (g (5 * i + 3)))
        \<and> (cs ! i) ''is_active'' = Some (act (g (5 * i + 4)))
        \<and> (cs ! i) ''customer_id'' = Some (cid i)
        \<and> (cs ! i) ''first_name'' = Some (fnm i)
        \<and> (cs ! i) ''last_name'' = Some (lnm i)
        \<and> (cs ! i) ''email'' = Some (eml i)"
      unfolding reg_def seg_def lim_def cty_def act_def cid_def fnm_def lnm_def eml_def
      using customer_draws [OF a b] by (intro conjI)
  qed
  show ?thesis
    apply (rule exI [of _ reg], rule exI [of _ seg], rule exI [of _ lim], rule exI [of _ cty])
    apply (rule exI [of _ act], rule exI [of _ cid], rule exI [of _ fnm], rule exI [of _ lnm])
    apply (rule exI [of _ eml])
    using r1 r2 r3 r4 r5 run by (intro conjI)
qed

theorem customer_drawn_fields_from_fixed_sets_witness:
  "\<exists>cs g'.
      generate_customer_data 2 tape0 = Inr (cs, g')
    \<and> (1::nat) < nat 2
    \<and> (cs ! 1) ''credit_limit'' = Some (IntV 1052)
    \<and> (\<exists>v. (cs ! 1) ''credit_limit'' = Some v \<and> v \<in> IntV ` {1000..50000})"
proof -
  obtain cs g' where c: "generate_customer_data 2 tape0 = Inr (cs, g')"
    using generate_customer_data_run [of 2 tape0] by blast
  have i: "(1::nat) < nat 2" by simp
  from customer_drawn_fields_from_fixed_sets
  obtain lim :: "nat \<Rightarrow> val" where lim_range: "\<forall>d. lim d \<in> IntV ` {1000..50000}"
    and lim_draw: "(cs ! 1) ''credit_limit'' = Some (lim (tape0 (5 * 1 + 2)))"
  proof (elim exE conjE)
    fix reg seg lim cty act :: "nat \<Rightarrow> val" and cid fnm lnm eml :: "nat \<Rightarrow> val"
    assume r: "\<forall>d. lim d \<in> IntV ` {1000..50000}"
      and run: "\<forall>N g cs g' i. generate_customer_data N g = Inr (cs, g') \<and> i < nat N \<longrightarrow>
          (cs ! i) ''registration_date'' = Some (reg (g (5 * i)))
        \<and> (cs ! i) ''customer_segment'' = Some (seg (g (5 * i + 1)))
        \<and> (cs ! i) ''credit_limit'' = Some (lim (g (5 * i + 2)))
        \<and> (cs ! i) ''country'' = Some (cty (g (5 * i + 3)))
        \<and> (cs ! i) ''is_active'' = Some (act (g (5 * i + 4)))
        \<and> (cs ! i) ''customer_id'' = Some (cid i)
        \<and> (cs ! i) ''first_name'' = Some (fnm i)
        \<and> (cs ! i) ''last_name'' = Some (lnm i)
        \<and> (cs ! i) ''email'' = Some (eml i)"
    assume that: "\<And>lim. \<forall>d. lim d \<in> IntV ` {1000..50000} \<Longrightarrow>
        (cs ! 1) ''credit_limit'' = Some (lim (tape0 (5 * 1 + 2))) \<Longrightarrow> thesis"
    note at = run [rule_format, OF conjI [OF c i]]
    show thesis
      using r conjunct1 [OF conjunct2 [OF conjunct2 [OF at]]] by (rule that)
  qed
  have v: "(cs ! 1) ''credit_limit'' = Some (IntV 1052)"
    using customer_draws(3) [OF c i] by (simp add: tape0_def)
  have p1: "\<exists>v. (cs ! 1) ''credit_limit'' = Some v \<and> v \<in> IntV ` {1000..50000}"
    apply (rule exI [of _ "lim (tape0 (5 * 1 + 2))"])
    using lim_draw lim_range [rule_format, of "tape0 (5 * 1 + 2)"] by (intro conjI)
  show ?thesis
    apply (rule exI [of _ cs], rule exI [of _ g'])
    using c i v p1 by (intro conjI)
qed

lemma customer_id_of_index:
  "\<exists>cs g'. generate_customer_data (int (Suc i)) g = Inr (cs, g')
      \<and> cs ! i \<in> set cs
      \<and> (cs ! i) ''customer_id'' = Some (StrV (''CUST_'' @ format_0d 6 (int i)))"
proof -
  obtain cs g' where c: "generate_customer_data (int (Suc i)) g = Inr (cs, g')"
    using generate_customer_data_run [of "int (Suc i)" g] by blast
  have len: "length cs = Suc i"
    using generate_customer_data_nth(1) [OF c] by simp
  have "customer_record (int i) (shift (5 * i) g) = Inr (cs ! i, shift (5 * Suc i) g)"
    using generate_customer_data_nth(3) [OF c, of i] by simp
  then have "(cs ! i) ''customer_id'' = Some (StrV (''CUST_'' @ format_0d 6 (int i)))"
    by (rule customer_row_fields(1))
  moreover have "cs ! i \<in> set cs" using len by simp
  ultimately show ?thesis using c by blast
qed

lemma customer_ids_infinite:
  "infinite (range (\<lambda>i::nat. Some (StrV (''CUST_'' @ format_0d 6 (int i)))))"
proof
  have inj: "inj (\<lambda>i::nat. Some (StrV (''CUST_'' @ format_0d 6 (int i))))"
  proof (rule injI)
    fix i j :: nat
    assume "Some (StrV (''CUST_'' @ format_0d 6 (int i))) = Some (StrV (''CUST_'' @ format_0d 6 (int j)))"
    then have "format_0d 6 (int i) = format_0d 6 (int j)" by simp
    then have "int i = int j" by (intro format_0d_inj) simp_all
    then show "i = j" by simp
  qed
  assume "finite (range (\<lambda>i::nat. Some (StrV (''CUST_'' @ format_0d 6 (int i)))))"
  then have "finite (UNIV :: nat set)" using inj by (rule finite_imageD)
  then show False by simp
qed

text \<open>
  C3, as stated, asks that every field of a record be drawn from a fixed, small
  enumerated set or numeric range. The customer_id of a customer record is not: it is the
  rendering of the record's index, so over all counts it takes infinitely many values and
  no fixed finite set holds them all.
\<close>

theorem customer_id_not_from_fixed_set:
  "\<not> (\<exists>S. finite S
        \<and> (\<forall>N g cs g'. generate_customer_data N g = Inr (cs, g')
              \<longrightarrow> (\<forall>r\<in>set cs. r ''customer_id'' \<in> S)))"
proof
  assume "\<exists>S. finite S
        \<and> (\<forall>N g cs g'. generate_customer_data N g = Inr (cs, g')
              \<longrightarrow> (\<forall>r\<in>set cs. r ''customer_id'' \<in> S))"
  then obtain S where fin: "finite S"
    and holds: "\<forall>N g cs g'. generate_customer_data N g = Inr (cs, g')
              \<longrightarrow> (\<forall>r\<in>set cs. r ''customer_id'' \<in> S)"
    by (elim exE conjE)
  note all = holds [rule_format]
  have "range (\<lambda>i::nat. Some (StrV (''CUST_'' @ format_0d 6 (int i)))) \<subseteq> S"
  proof
    fix x assume "x \<in> range (\<lambda>i::nat. Some (StrV (''CUST_'' @ format_0d 6 (int i))))"
    then obtain i :: nat where x: "x = Some (StrV (''CUST_'' @ format_0d 6 (int i)))"
      by blast
    obtain cs g' where run: "generate_customer_data (int (Suc i)) tape0 = Inr (cs, g')"
      and mem: "cs ! i \<in> set cs"
      and id: "(cs ! i) ''customer_id'' = Some (StrV (''CUST_'' @ format_0d 6 (int i)))"
      using customer_id_of_index [of i tape0] by blast
    have "(cs ! i) ''customer_id'' \<in> S" using run mem by (rule all)
    then show "x \<in> S" using id x by (simp only:)
  qed
  then have "finite (range (\<lambda>i::nat. Some (StrV (''CUST_'' @ format_0d 6 (int i)))))"
    using fin by (rule finite_subset)
  then show False using customer_ids_infinite by simp
qed

end
